theory Spec2Isabelle
  imports Main
begin

section \<open>The syntax highlighter of \<^verbatim>\<open>syntax_highlighter/highlighter.py\<close>\<close>

subsection \<open>Errors and the interface to Python's \<^verbatim>\<open>re\<close> module\<close>

text \<open>
  Every exception the highlighter can raise is a value. \<open>ReError\<close> is \<^verbatim>\<open>re.error\<close>
  (a pattern that does not compile); \<open>IndexError\<close> and \<open>KeyError\<close> are Python's two
  \<^verbatim>\<open>LookupError\<close> subclasses; \<open>UnboundLocalError\<close> is a read of a local that no
  branch has assigned.
\<close>

datatype error = ReError | IndexError | KeyError string | UnboundLocalError

fun is_lookup_error :: "error \<Rightarrow> bool" where
  "is_lookup_error IndexError = True"
| "is_lookup_error (KeyError k) = True"
| "is_lookup_error e = False"

text \<open>
  A match object is the pair of \<^verbatim>\<open>match.start()\<close> and \<^verbatim>\<open>match.end()\<close>;
  \<^verbatim>\<open>match.group()\<close> is the slice of the scanned text between them. A compiled pattern
  is what \<^verbatim>\<open>pattern.finditer(text)\<close> yields for each text, and the \<^verbatim>\<open>re\<close> module is
  \<^verbatim>\<open>re.compile(expr)\<close> (flag \<open>False\<close>) together with
  \<^verbatim>\<open>re.compile(expr, re.DOTALL)\<close> (flag \<open>True\<close>); \<open>None\<close> is a pattern that does
  not compile. The module is a parameter of the model.
\<close>

type_synonym span = "nat \<times> nat"
type_synonym pattern = "string \<Rightarrow> span list"
type_synonym re_module = "string \<Rightarrow> bool \<Rightarrow> pattern option"

text \<open>Python's \<^verbatim>\<open>text[a:b]\<close> for non-negative \<open>a\<close> and \<open>b\<close>.\<close>

definition slice :: "string \<Rightarrow> nat \<Rightarrow> nat \<Rightarrow> string" where
  "slice text a b = take (b - a) (drop a text)"

text \<open>
  What \<^verbatim>\<open>finditer\<close> guarantees of the matches of one scan: they come from left to
  right, each lies inside the text, and none starts before the previous one ends.
\<close>

fun spans_from :: "nat \<Rightarrow> nat \<Rightarrow> span list \<Rightarrow> bool" where
  "spans_from n i [] = True"
| "spans_from n i ((s, e) # ms) = (i \<le> s \<and> s \<le> e \<and> e \<le> n \<and> spans_from n e ms)"

definition spans_ok :: "string \<Rightarrow> span list \<Rightarrow> bool" where
  "spans_ok text ms = spans_from (length text) 0 ms"

text \<open>
  \<^verbatim>\<open>re.sub(pattern, repl, text)\<close> with a callable \<open>repl\<close>: the text between the matches
  is copied and each match is replaced by what \<open>repl\<close> returns for it. It scans as
  \<^verbatim>\<open>finditer\<close> does, so it is given the same matches; \<open>i\<close> is the end of the previous
  match.
\<close>

fun re_sub :: "(string \<Rightarrow> string) \<Rightarrow> span list \<Rightarrow> nat \<Rightarrow> string \<Rightarrow> string" where
  "re_sub f [] i text = drop i text"
| "re_sub f ((s, e) # ms) i text =
     slice text i s @ f (slice text s e) @ re_sub f ms e text"

subsection \<open>Masking: \<^verbatim>\<open>repl\<close>, \<^verbatim>\<open>mute_expression\<close>, \<^verbatim>\<open>unmute_expression\<close>\<close>

definition repl :: "string \<Rightarrow> string" where
  "repl m = replicate (length m) (CHR ''x'')"

type_synonym muted = "nat list \<times> nat list \<times> string list"

text \<open>
  The loop \<^verbatim>\<open>for match in pattern.finditer(text)\<close> that appends \<^verbatim>\<open>match.start()\<close>,
  \<^verbatim>\<open>match.end()\<close> and \<^verbatim>\<open>match.group()\<close> to three lists (lines 36 to 42, and again
  lines 95 to 105).
\<close>

definition finditer_lists :: "pattern \<Rightarrow> string \<Rightarrow> muted" where
  "finditer_lists pattern text =
     (let ms = pattern text
      in (map fst ms, map snd ms, map (\<lambda>(s, e). slice text s e) ms))"

definition mute_expression ::
  "re_module \<Rightarrow> string \<Rightarrow> string \<Rightarrow> bool \<Rightarrow> error + (string \<times> muted)" where
  "mute_expression re text expr is_multiline =
     (case re expr is_multiline of
        None \<Rightarrow> Inl ReError
      | Some pattern \<Rightarrow>
          let recorded = finditer_lists pattern text
          in Inr (re_sub repl (pattern text) 0 text, recorded))"

text \<open>
  The loop over \<^verbatim>\<open>range(len(expr_match))\<close> reads the three lists at the same index, so
  it is a recursion that takes the heads of all three; a start or end list that is too
  short is the \<^verbatim>\<open>IndexError\<close> of the subscript. The offsets are those of match objects,
  hence natural numbers.
\<close>

fun unmute_expression ::
  "string \<Rightarrow> nat list \<Rightarrow> nat list \<Rightarrow> string list \<Rightarrow> error + string" where
  "unmute_expression text expr_start expr_end [] = Inr text"
| "unmute_expression text (s # expr_start) (e # expr_end) (m # expr_match) =
     unmute_expression (take s text @ m @ drop e text) expr_start expr_end expr_match"
| "unmute_expression text expr_start expr_end (m # expr_match) = Inl IndexError"

subsection \<open>One colorize pass: \<^verbatim>\<open>colorize\<close>\<close>

definition esc :: char where
  "esc = CHR 0x1B"

text \<open>\<^verbatim>\<open>"\033[{}m".format(c)\<close> and \<^verbatim>\<open>"\033[0m"\<close>.\<close>

definition esc_open :: "string \<Rightarrow> string" where
  "esc_open c = esc # CHR ''['' # c @ ''m''"

definition esc_reset :: string where
  "esc_reset = esc # ''[0m''"

text \<open>
  \<^verbatim>\<open>if cond: text, s, e, m = mute_expression(text, expr, flag)\<close>: when the condition is
  false the text is unchanged and the three locals stay unbound (\<open>None\<close>).
\<close>

definition mute_if ::
  "bool \<Rightarrow> re_module \<Rightarrow> string \<Rightarrow> string \<Rightarrow> bool \<Rightarrow> error + (string \<times> muted option)" where
  "mute_if cond re text expr is_multiline =
     (if cond then
        (case mute_expression re text expr is_multiline of
           Inl err \<Rightarrow> Inl err
         | Inr (text', m) \<Rightarrow> Inr (text', Some m))
      else Inr (text, None))"

text \<open>\<^verbatim>\<open>if cond: text = unmute_expression(text, s, e, m)\<close>.\<close>

definition unmute_if :: "bool \<Rightarrow> string \<Rightarrow> muted option \<Rightarrow> error + string" where
  "unmute_if cond text m =
     (if cond then
        (case m of
           None \<Rightarrow> Inl UnboundLocalError
         | Some (expr_start, expr_end, expr_match) \<Rightarrow>
             unmute_expression text expr_start expr_end expr_match)
      else Inr text)"

text \<open>
  Lines 88 to 93: the three guarded calls of \<^verbatim>\<open>mute_expression\<close>, each on the text the
  previous one left. The result is the masked text and the records \<open>(mlc, s, c)\<close> of
  the multi-line comments, the strings and the comments.
\<close>

definition mute_phase ::
  "re_module \<Rightarrow> string \<Rightarrow> string \<Rightarrow> string \<Rightarrow> string \<Rightarrow> string \<Rightarrow>
   error + (string \<times> muted option \<times> muted option \<times> muted option)" where
  "mute_phase re text kind strexpr comexpr mlcomexpr =
     (case mute_if (kind \<noteq> ''mlcomment'') re text mlcomexpr True of
        Inl err \<Rightarrow> Inl err
      | Inr (text1, mlc) \<Rightarrow>
     (case mute_if (kind \<noteq> ''string'' \<and> kind \<noteq> ''mlcomment'') re text1 strexpr False of
        Inl err \<Rightarrow> Inl err
      | Inr (text2, s) \<Rightarrow>
     (case mute_if (kind \<noteq> ''comment'') re text2 comexpr False of
        Inl err \<Rightarrow> Inl err
      | Inr (text3, c) \<Rightarrow> Inr (text3, mlc, s, c))))"

text \<open>
  Lines 95 to 105: the rule's own regex is compiled, with \<^verbatim>\<open>re.DOTALL\<close> when the kind
  is \<^verbatim>\<open>mlcomment\<close>, and its matches on the given text are recorded as
  \<open>(colorstart, colorend, colorstring)\<close>.
\<close>

definition find_matches ::
  "re_module \<Rightarrow> string \<Rightarrow> string \<Rightarrow> string \<Rightarrow> error + muted" where
  "find_matches re regex kind text =
     (case re regex (kind = ''mlcomment'') of
        None \<Rightarrow> Inl ReError
      | Some pattern \<Rightarrow> Inr (finditer_lists pattern text))"

text \<open>Lines 108 to 113: the three guarded calls of \<^verbatim>\<open>unmute_expression\<close>, in the source's order.\<close>

definition unmute_phase ::
  "string \<Rightarrow> string \<Rightarrow> muted option \<Rightarrow> muted option \<Rightarrow> muted option \<Rightarrow> error + string" where
  "unmute_phase text kind mlc s c =
     (case unmute_if (kind \<noteq> ''string'' \<and> kind \<noteq> ''mlcomment'') text s of
        Inl err \<Rightarrow> Inl err
      | Inr text1 \<Rightarrow>
     (case unmute_if (kind \<noteq> ''comment'') text1 c of
        Inl err \<Rightarrow> Inl err
      | Inr text2 \<Rightarrow> unmute_if (kind \<noteq> ''mlcomment'') text2 mlc))"

text \<open>
  Lines 115 to 121: the loop over \<^verbatim>\<open>range(len(colorstring))\<close>, with its state
  \<open>(text, nudge)\<close>. \<^verbatim>\<open>color[0]\<close> is read in every iteration and raises
  \<^verbatim>\<open>IndexError\<close> on an empty color list.
\<close>

fun color_loop ::
  "string \<Rightarrow> nat \<Rightarrow> string list \<Rightarrow> nat list \<Rightarrow> nat list \<Rightarrow> string list \<Rightarrow>
   error + (string \<times> nat)" where
  "color_loop text nudge color colorstart colorend [] = Inr (text, nudge)"
| "color_loop text nudge color (s # colorstart) (e # colorend) (m # colorstring) =
     (case color of
        [] \<Rightarrow> Inl IndexError
      | c # _ \<Rightarrow>
          let highlightedexpr = esc_open c @ m @ esc_reset
          in color_loop (take (s + nudge) text @ highlightedexpr @ drop (e + nudge) text)
               (nudge + (length (esc_open c) + length esc_reset))
               color colorstart colorend colorstring)"
| "color_loop text nudge color colorstart colorend (m # colorstring) = Inl IndexError"

definition colorize ::
  "re_module \<Rightarrow> string \<Rightarrow> string \<Rightarrow> string list \<Rightarrow> string \<Rightarrow> string \<Rightarrow> string \<Rightarrow> string \<Rightarrow>
   error + string" where
  "colorize re text regex color kind strexpr comexpr mlcomexpr =
     (case mute_phase re text kind strexpr comexpr mlcomexpr of
        Inl err \<Rightarrow> Inl err
      | Inr (masked, mlc, s, c) \<Rightarrow>
     (case find_matches re regex kind masked of
        Inl err \<Rightarrow> Inl err
      | Inr (colorstart, colorend, colorstring) \<Rightarrow>
     (case unmute_phase masked kind mlc s c of
        Inl err \<Rightarrow> Inl err
      | Inr unmuted \<Rightarrow>
     (case color_loop unmuted 0 color colorstart colorend colorstring of
        Inl err \<Rightarrow> Inl err
      | Inr (colored, nudge) \<Rightarrow> Inr colored))))"

subsection \<open>Reading the theme and the syntax: \<^verbatim>\<open>colorfile\<close>\<close>

text \<open>
  \<^verbatim>\<open>str.split(sep)\<close> for a non-empty separator: the pieces between the occurrences of
  \<open>sep\<close>, found from left to right without overlap. \<open>cur\<close> is the piece being read,
  reversed. The source splits at the constants \<^verbatim>\<open>" "\<close> and \<^verbatim>\<open>"\":"\<close> only.
\<close>

fun split_from :: "string \<Rightarrow> string \<Rightarrow> string \<Rightarrow> string list" where
  "split_from sep cur [] = [rev cur]"
| "split_from sep cur (c # cs) =
     (if sep \<noteq> [] \<and> take (length sep) (c # cs) = sep
      then rev cur # split_from sep [] (drop (length sep - 1) cs)
      else split_from sep (c # cur) cs)"

definition split :: "string \<Rightarrow> string \<Rightarrow> string list" where
  "split sep line = split_from sep [] line"

text \<open>\<^verbatim>\<open>line.replace(c, "")\<close> for a one-character \<open>c\<close>.\<close>

definition remove_char :: "char \<Rightarrow> string \<Rightarrow> string" where
  "remove_char c line = filter (\<lambda>d. d \<noteq> c) line"

text \<open>
  A dictionary keeps its keys in insertion order, and an assignment to a key that is
  present keeps the key's place: an association list without duplicate keys.
\<close>

type_synonym dict = "(string \<times> string list) list"

fun dict_set :: "string \<Rightarrow> string list \<Rightarrow> dict \<Rightarrow> dict" where
  "dict_set k v [] = [(k, v)]"
| "dict_set k v ((k', v') # d) = (if k' = k then (k, v) # d else (k', v') # dict_set k v d)"

definition dict_get :: "dict \<Rightarrow> string \<Rightarrow> error + string list" where
  "dict_get d k = (case map_of d k of None \<Rightarrow> Inl (KeyError k) | Some v \<Rightarrow> Inr v)"

text \<open>\<^verbatim>\<open>xs[len(xs)-1]\<close>: on an empty list the index is \<open>-1\<close> and the read raises.\<close>

definition last_item :: "string list \<Rightarrow> error + string" where
  "last_item xs = (case xs of [] \<Rightarrow> Inl IndexError | _ \<Rightarrow> Inr (last xs))"

text \<open>Lines 153 to 157: one theme line, \<^verbatim>\<open>category: color1 color2 ...\<close>.\<close>

definition theme_line :: "dict \<Rightarrow> string \<Rightarrow> dict" where
  "theme_line theme_dict line =
     (let line = split '' '' (remove_char (CHR 0x0A) (remove_char (CHR '':'') line))
      in dict_set (hd line) (tl line) theme_dict)"

definition build_theme :: "string list \<Rightarrow> dict" where
  "build_theme theme = foldl theme_line [] theme"

text \<open>The separator \<^verbatim>\<open>"\":"\<close> of a syntax line: a double quote and a colon.\<close>

definition syntax_sep :: string where
  "syntax_sep = [CHR 0x22, CHR '':'']"

definition syntax_fields :: "string \<Rightarrow> string list" where
  "syntax_fields line = split syntax_sep (remove_char (CHR 0x0A) (remove_char (CHR '' '') line))"

text \<open>
  Lines 159 to 164: one syntax line. \<^verbatim>\<open>theme_dict[line[1]].append(line[0])\<close> extends the
  list stored in the theme dictionary, and \<^verbatim>\<open>syntax_dict[line[1]] = theme_dict[line[1]]\<close>
  stores that same list object in the syntax dictionary. The list is only ever extended by
  this statement pair, so both dictionaries hold the extended value after it.
\<close>

definition syntax_line :: "dict \<times> dict \<Rightarrow> string \<Rightarrow> error + (dict \<times> dict)" where
  "syntax_line dicts line =
     (case dicts of (theme_dict, syntax_dict) \<Rightarrow>
     (case syntax_fields line of
        regex # category # _ \<Rightarrow>
          (case dict_get theme_dict category of
             Inl err \<Rightarrow> Inl err
           | Inr entry \<Rightarrow>
               Inr (dict_set category (entry @ [regex]) theme_dict,
                    dict_set category (entry @ [regex]) syntax_dict))
      | _ \<Rightarrow> Inl IndexError))"

fun merge_syntax :: "dict \<times> dict \<Rightarrow> string list \<Rightarrow> error + (dict \<times> dict)" where
  "merge_syntax dicts [] = Inr dicts"
| "merge_syntax dicts (line # syntax) =
     (case syntax_line dicts line of
        Inl err \<Rightarrow> Inl err
      | Inr dicts' \<Rightarrow> merge_syntax dicts' syntax)"

text \<open>Lines 166 to 168: the regex of a special category, the last item of its entry.\<close>

definition special_regex :: "dict \<Rightarrow> string \<Rightarrow> error + string" where
  "special_regex syntax_dict k =
     (case dict_get syntax_dict k of Inl err \<Rightarrow> Inl err | Inr entry \<Rightarrow> last_item entry)"

text \<open>Lines 170 to 173: the body of the loop over the keys, for one key and its entry.\<close>

definition rule_pass ::
  "re_module \<Rightarrow> string \<Rightarrow> string \<Rightarrow> string list \<Rightarrow> string \<Rightarrow> string \<Rightarrow> string \<Rightarrow> error + string" where
  "rule_pass re text key entry strexpr comexpr mlcomexpr =
     (let color_list = butlast entry
      in case last_item entry of
           Inl err \<Rightarrow> Inl err
         | Inr regex \<Rightarrow>
             colorize re text (drop 1 regex) color_list key
               (drop 1 strexpr) (drop 1 comexpr) (drop 1 mlcomexpr))"

fun rule_passes ::
  "re_module \<Rightarrow> string \<Rightarrow> dict \<Rightarrow> string \<Rightarrow> string \<Rightarrow> string \<Rightarrow> error + string" where
  "rule_passes re text [] strexpr comexpr mlcomexpr = Inr text"
| "rule_passes re text ((key, entry) # syntax_dict) strexpr comexpr mlcomexpr =
     (case rule_pass re text key entry strexpr comexpr mlcomexpr of
        Inl err \<Rightarrow> Inl err
      | Inr text' \<Rightarrow> rule_passes re text' syntax_dict strexpr comexpr mlcomexpr)"

text \<open>
  \<^verbatim>\<open>colorfile\<close>, given what \<^verbatim>\<open>readlines()\<close> returned for the three files. The result is
  the text handed to \<^verbatim>\<open>print\<close>.
\<close>

definition colorfile ::
  "re_module \<Rightarrow> string list \<Rightarrow> string list \<Rightarrow> string list \<Rightarrow> error + string" where
  "colorfile re theme syntax source =
     (let text = concat source
      in case merge_syntax (build_theme theme, []) syntax of
           Inl err \<Rightarrow> Inl err
         | Inr (theme_dict, syntax_dict) \<Rightarrow>
        (case special_regex syntax_dict ''string'' of
           Inl err \<Rightarrow> Inl err
         | Inr strexpr \<Rightarrow>
        (case special_regex syntax_dict ''comment'' of
           Inl err \<Rightarrow> Inl err
         | Inr comexpr \<Rightarrow>
        (case special_regex syntax_dict ''mlcomment'' of
           Inl err \<Rightarrow> Inl err
         | Inr mlcomexpr \<Rightarrow> rule_passes re text syntax_dict strexpr comexpr mlcomexpr))))"

subsection \<open>A fragment of \<^verbatim>\<open>re\<close>, for running the model\<close>

text \<open>
  The patterns of this fragment are non-empty sequences of items. An item is an atom,
  optionally followed by \<^verbatim>\<open>*\<close> (greedy), \<^verbatim>\<open>+\<close> (greedy) or \<^verbatim>\<open>*?\<close> (lazy). An atom is
  an ordinary character, \<^verbatim>\<open>.\<close>, a backslash before a punctuation character, a negated
  class of one character \<^verbatim>\<open>[^c]\<close>, or a range \<^verbatim>\<open>[a-b]\<close>. Every other pattern, and every
  pattern that can match the empty string, is outside the fragment and gets \<open>None\<close>.
  On the fragment the matcher backtracks in the order \<^verbatim>\<open>re\<close> does, and no match is empty,
  so \<^verbatim>\<open>finditer\<close> resumes at the end of each match.
\<close>

datatype atom = Lit char | Dot | NotCh char | Range char char

datatype quant = One | Star | Plus | Lazy

type_synonym item = "atom \<times> quant"

definition meta_chars :: string where
  "meta_chars = [CHR 0x5C, CHR ''.'', CHR ''^'', CHR ''$'', CHR ''*'', CHR ''+'', CHR ''?'',
                 CHR ''{'', CHR ''}'', CHR ''['', CHR '']'', CHR ''|'', CHR ''('', CHR '')'']"

definition class_chars :: string where
  "class_chars = [CHR 0x5C, CHR ''['', CHR '']'', CHR ''^'', CHR ''-'']"

fun parse_atom :: "string \<Rightarrow> (atom \<times> string) option" where
  "parse_atom [] = None"
| "parse_atom (c # r) =
     (if c = CHR ''.'' then Some (Dot, r)
      else if c = CHR 0x5C then
        (case r of
           d # r' \<Rightarrow> if d \<in> set meta_chars \<or> d = CHR ''/'' \<or> d = CHR 0x22
                     then Some (Lit d, r') else None
         | [] \<Rightarrow> None)
      else if c = CHR ''['' then
        (case r of
           a # b # d # r' \<Rightarrow>
             if a = CHR ''^'' \<and> b \<notin> set class_chars \<and> d = CHR '']''
             then Some (NotCh b, r')
             else
               (case r' of
                  e # r'' \<Rightarrow>
                    if a \<notin> set class_chars \<and> b = CHR ''-'' \<and> d \<notin> set class_chars
                         \<and> e = CHR '']'' \<and> (of_char a :: nat) \<le> of_char d
                    then Some (Range a d, r'')
                    else None
                | [] \<Rightarrow> None)
         | _ \<Rightarrow> None)
      else if c \<in> set meta_chars then None
      else Some (Lit c, r))"

fun parse_quant :: "string \<Rightarrow> quant \<times> string" where
  "parse_quant (c # d # r) =
     (if c = CHR ''*'' \<and> d = CHR ''?'' then (Lazy, r)
      else if c = CHR ''*'' then (Star, d # r)
      else if c = CHR ''+'' then (Plus, d # r)
      else (One, c # d # r))"
| "parse_quant [c] =
     (if c = CHR ''*'' then (Star, [])
      else if c = CHR ''+'' then (Plus, [])
      else (One, [c]))"
| "parse_quant [] = (One, [])"

text \<open>The fuel bounds the number of items; a pattern has at most as many as characters.\<close>

fun parse_items :: "nat \<Rightarrow> string \<Rightarrow> item list option" where
  "parse_items n [] = Some []"
| "parse_items 0 (c # r) = None"
| "parse_items (Suc n) (c # r) =
     (case parse_atom (c # r) of
        None \<Rightarrow> None
      | Some (a, r') \<Rightarrow>
          (case parse_quant r' of
             (q, r'') \<Rightarrow> map_option (\<lambda>items. (a, q) # items) (parse_items n r'')))"

fun accepts :: "bool \<Rightarrow> atom \<Rightarrow> char \<Rightarrow> bool" where
  "accepts dotall (Lit d) c = (c = d)"
| "accepts dotall Dot c = (if dotall then True else c \<noteq> CHR 0x0A)"
| "accepts dotall (NotCh d) c = (c \<noteq> d)"
| "accepts dotall (Range lo hi) c = ((of_char lo :: nat) \<le> of_char c \<and> (of_char c :: nat) \<le> of_char hi)"

text \<open>The length of the first match of the items at the start of the text, if there is one.\<close>

fun match_here :: "bool \<Rightarrow> item list \<Rightarrow> string \<Rightarrow> nat option" where
  "match_here dotall [] text = Some 0"
| "match_here dotall ((a, One) # items) [] = None"
| "match_here dotall ((a, One) # items) (c # cs) =
     (if accepts dotall a c then map_option Suc (match_here dotall items cs) else None)"
| "match_here dotall ((a, Plus) # items) [] = None"
| "match_here dotall ((a, Plus) # items) (c # cs) =
     (if accepts dotall a c then map_option Suc (match_here dotall ((a, Star) # items) cs)
      else None)"
| "match_here dotall ((a, Star) # items) [] = match_here dotall items []"
| "match_here dotall ((a, Star) # items) (c # cs) =
     (if accepts dotall a c then
        (case match_here dotall ((a, Star) # items) cs of
           Some n \<Rightarrow> Some (Suc n)
         | None \<Rightarrow> match_here dotall items (c # cs))
      else match_here dotall items (c # cs))"
| "match_here dotall ((a, Lazy) # items) [] = match_here dotall items []"
| "match_here dotall ((a, Lazy) # items) (c # cs) =
     (case match_here dotall items (c # cs) of
        Some n \<Rightarrow> Some n
      | None \<Rightarrow>
          if accepts dotall a c then map_option Suc (match_here dotall ((a, Lazy) # items) cs)
          else None)"

text \<open>
  \<^verbatim>\<open>finditer\<close>: \<open>pos\<close> is the offset of the text that is left, \<open>skip\<close> the number of
  its characters that belong to the match just found.
\<close>

fun scan :: "(string \<Rightarrow> nat option) \<Rightarrow> nat \<Rightarrow> nat \<Rightarrow> string \<Rightarrow> span list" where
  "scan m pos skip [] = []"
| "scan m pos (Suc k) (c # cs) = scan m (Suc pos) k cs"
| "scan m pos 0 (c # cs) =
     (case m (c # cs) of
        Some (Suc n) \<Rightarrow> (pos, pos + Suc n) # scan m (Suc pos) n cs
      | _ \<Rightarrow> scan m (Suc pos) 0 cs)"

fun nullable :: "item list \<Rightarrow> bool" where
  "nullable [] = True"
| "nullable ((a, q) # items) = ((q = Star \<or> q = Lazy) \<and> nullable items)"

definition re_fragment :: re_module where
  "re_fragment expr dotall =
     (case parse_items (length expr) expr of
        None \<Rightarrow> None
      | Some items \<Rightarrow>
          if nullable items then None
          else Some (\<lambda>text. scan (match_here dotall items) 0 0 text))"

subsection \<open>Sample rules and sources\<close>

text \<open>
  The patterns \<^verbatim>\<open>"[^"]*"\<close>, \<^verbatim>\<open>//.*\<close> and \<^verbatim>\<open>/\*.*?\*/\<close> of a C-like syntax file for the
  categories \<^verbatim>\<open>string\<close>, \<^verbatim>\<open>comment\<close> and \<^verbatim>\<open>mlcomment\<close>.
\<close>

definition dq :: char where
  "dq = CHR 0x22"

definition string_rx :: string where
  "string_rx = dq # ''[^'' @ dq # '']*'' @ [dq]"

definition comment_rx :: string where
  "comment_rx = ''//.*''"

definition mlcomment_rx :: string where
  "mlcomment_rx = ''/'' @ CHR 0x5C # ''*.*?'' @ CHR 0x5C # ''*/''"

text \<open>The source line \<^verbatim>\<open>x = "if true"\<close>.\<close>

definition src_assign :: string where
  "src_assign = ''x = '' @ dq # ''if true'' @ [dq]"

text \<open>The source lines \<^verbatim>\<open>a // if x\<close> and \<^verbatim>\<open>// say "hi"\<close>.\<close>

definition src_trailing :: string where
  "src_trailing = ''a // if x''"

definition src_quoting :: string where
  "src_quoting = ''// say '' @ dq # ''hi'' @ [dq]"

text \<open>A rule for lower-case words, \<^verbatim>\<open>[a-z]+\<close>.\<close>

definition word_rx :: string where
  "word_rx = ''[a-z]+''"

subsection \<open>The unmute order the specification states\<close>

text \<open>
  The specification has the three categories unmuted in the reverse of the order in which
  they were masked: comments, then strings, then multi-line comments. This is
  \<open>unmute_phase\<close> with its first two steps exchanged, for comparison with the source.
\<close>

definition unmute_phase_reversed ::
  "string \<Rightarrow> string \<Rightarrow> muted option \<Rightarrow> muted option \<Rightarrow> muted option \<Rightarrow> error + string" where
  "unmute_phase_reversed text kind mlc s c =
     (case unmute_if (kind \<noteq> ''comment'') text c of
        Inl err \<Rightarrow> Inl err
      | Inr text1 \<Rightarrow>
     (case unmute_if (kind \<noteq> ''string'' \<and> kind \<noteq> ''mlcomment'') text1 s of
        Inl err \<Rightarrow> Inl err
      | Inr text2 \<Rightarrow> unmute_if (kind \<noteq> ''mlcomment'') text2 mlc))"

subsection \<open>The highlighted text, piece by piece\<close>

text \<open>
  What the specification says a pass writes: the text between the matches as it is, and each
  match wrapped between an opening sequence and a reset sequence. \<open>i\<close> is the end of
  the previous match; \<open>colorstring\<close> holds the text recorded for each match.
\<close>

datatype piece = Plain string | Opening string | Reset

fun highlight_pieces ::
  "string \<Rightarrow> string \<Rightarrow> nat \<Rightarrow> span list \<Rightarrow> string list \<Rightarrow> piece list" where
  "highlight_pieces text c i ((s, e) # ms) (m # colorstring) =
     Plain (slice text i s) # Opening c # Plain m # Reset
       # highlight_pieces text c e ms colorstring"
| "highlight_pieces text c i ms colorstring = [Plain (drop i text)]"

fun render_piece :: "piece \<Rightarrow> string" where
  "render_piece (Plain s) = s"
| "render_piece (Opening c) = esc_open c"
| "render_piece Reset = esc_reset"

definition render :: "piece list \<Rightarrow> string" where
  "render ps = concat (map render_piece ps)"

text \<open>The recorded text of each match is as long as the match.\<close>

definition fits :: "span \<Rightarrow> string \<Rightarrow> bool" where
  "fits sp m = (length m = snd sp - fst sp)"

subsection \<open>The text before a separator\<close>

text \<open>
  The part of a line that stands before the first occurrence of a separator (the whole line
  when the separator does not occur), read off the line directly rather than through
  \<open>split\<close>.
\<close>

fun text_before :: "string \<Rightarrow> string \<Rightarrow> string" where
  "text_before sep [] = []"
| "text_before sep (c # cs) =
     (if take (length sep) (c # cs) = sep then [] else c # text_before sep cs)"

subsection \<open>A sample theme and syntax\<close>

text \<open>
  The theme lines \<^verbatim>\<open>keyword: 31 1\<close>, \<^verbatim>\<open>string: 33\<close>, \<^verbatim>\<open>comment: 32\<close>,
  \<^verbatim>\<open>mlcomment: 32\<close> and the syntax lines \<^verbatim>\<open>"if":keyword\<close>, \<^verbatim>\<open>""[^"]*"":string\<close>,
  \<^verbatim>\<open>"//.*":comment\<close>, \<^verbatim>\<open>"/\*.*?\*/":mlcomment\<close>, as \<^verbatim>\<open>readlines()\<close> returns them.
\<close>

definition nl :: char where
  "nl = CHR 0x0A"

definition sample_theme :: "string list" where
  "sample_theme =
     [''keyword: 31 1'' @ [nl], ''string: 33'' @ [nl], ''comment: 32'' @ [nl],
      ''mlcomment: 32'' @ [nl]]"

definition sample_syntax :: "string list" where
  "sample_syntax =
     [dq # ''if'' @ dq # '':keyword'' @ [nl],
      dq # string_rx @ dq # '':string'' @ [nl],
      dq # comment_rx @ dq # '':comment'' @ [nl],
      dq # mlcomment_rx @ dq # '':mlcomment'' @ [nl]]"

text \<open>A syntax line for a category the sample theme does not have, \<^verbatim>\<open>"[0-9]+":number\<close>.\<close>

definition number_line :: string where
  "number_line = dq # ''[0-9]+'' @ dq # '':number'' @ [nl]"

subsection \<open>Counting escape sequences in a text\<close>




subsection \<open>What the model asks of the \<^verbatim>\<open>re\<close> module\<close>

text \<open>
  The contract of \<^verbatim>\<open>finditer\<close> for a whole module: every pattern that compiles yields, on
  every text, matches that satisfy \<open>spans_ok\<close>. \<open>recorded_ok\<close> says of the three lists
  of a masking step (or of an unbound record) that they are the starts, the ends and texts
  of fitting length of such matches.
\<close>

definition re_contract :: "re_module \<Rightarrow> bool" where
  "re_contract re =
     (\<forall>expr flag pattern t. re expr flag = Some pattern \<longrightarrow> spans_ok t (pattern t))"

definition recorded_ok :: "nat \<Rightarrow> muted option \<Rightarrow> bool" where
  "recorded_ok n r =
     (case r of
        None \<Rightarrow> True
      | Some (ss, es, strs) \<Rightarrow>
          (\<exists>sp. ss = map fst sp \<and> es = map snd sp \<and> spans_from n 0 sp \<and> list_all2 fits sp strs))"

subsection \<open>The rules applied one after the other\<close>

text \<open>
  The specification describes \<^verbatim>\<open>colorfile\<close> as a fold of the pass over the rules, each rule
  a category, its color codes and its pattern, with the text threaded through; and a pass
  as leaving the text as it is but for the sequences it inserts. \<open>apply_rules\<close> is that
  fold, and \<open>plain_text\<close> is what remains of the pieces of a pass when the inserted
  sequences are taken away.
\<close>

fun apply_rules ::
  "re_module \<Rightarrow> string \<Rightarrow> (string \<times> string list \<times> string) list \<Rightarrow>
   string \<Rightarrow> string \<Rightarrow> string \<Rightarrow> error + string" where
  "apply_rules re text [] strexpr comexpr mlcomexpr = Inr text"
| "apply_rules re text ((kind, color, regex) # rules) strexpr comexpr mlcomexpr =
     (case colorize re text regex color kind strexpr comexpr mlcomexpr of
        Inl err \<Rightarrow> Inl err
      | Inr text' \<Rightarrow> apply_rules re text' rules strexpr comexpr mlcomexpr)"


text \<open>
  A block comment over two lines followed by code, a string literal over two lines, and two
  small sources for the sample theme and syntax.
\<close>

definition src_block :: string where
  "src_block = ''/* a'' @ nl # ''if */ if''"

definition src_two_lines :: string where
  "src_two_lines = dq # ''a'' @ nl # ''if'' @ [dq]"

definition src_demo :: "string list" where
  "src_demo = [''if (x) { } // if comment'']"


section \<open>Properties\<close>

subsection \<open>Masking preserves the text\<close>

lemma slice_append_drop: "i \<le> s \<Longrightarrow> slice text i s @ drop s text = drop i text"
proof -
  assume "i \<le> s"
  then have "drop s text = drop (s - i) (drop i text)" by simp
  then show ?thesis unfolding slice_def by (metis append_take_drop_id)
qed

lemma length_slice: "a \<le> b \<Longrightarrow> b \<le> length text \<Longrightarrow> length (slice text a b) = b - a"
  by (simp add: slice_def)

lemma length_re_sub_repl:
  "spans_from (length text) i ms \<Longrightarrow> i \<le> length text \<Longrightarrow>
   length (re_sub repl ms i text) = length text - i"
  by (induction ms arbitrary: i) (auto simp: length_slice repl_def)

lemma unmute_re_sub:
  "spans_from (length text) i ms \<Longrightarrow> length pre = i \<Longrightarrow> i \<le> length text \<Longrightarrow>
   unmute_expression (pre @ re_sub repl ms i text) (map fst ms) (map snd ms)
     (map (\<lambda>(s, e). slice text s e) ms) = Inr (pre @ drop i text)"
proof (induction ms arbitrary: i pre)
  case Nil
  then show ?case by simp
next
  case (Cons m ms)
  obtain s e where m: "m = (s, e)" by (cases m)
  from Cons.prems m have b: "i \<le> s" "s \<le> e" "e \<le> length text"
    and rest: "spans_from (length text) e ms" by auto
  let ?a = "pre @ slice text i s"
  have la: "length ?a = s" using Cons.prems(2) b by (simp add: length_slice)
  have lr: "length (repl (slice text s e)) = e - s" using b by (simp add: repl_def length_slice)
  have tk: "take s (?a @ repl (slice text s e) @ re_sub repl ms e text) = ?a"
    using la by simp
  have dr: "drop e (?a @ repl (slice text s e) @ re_sub repl ms e text) = re_sub repl ms e text"
    using la lr b by simp
  have lp: "length (?a @ slice text s e) = e" using la b by (simp add: length_slice)
  have "unmute_expression (pre @ re_sub repl (m # ms) i text) (map fst (m # ms))
          (map snd (m # ms)) (map (\<lambda>(s, e). slice text s e) (m # ms))
        = unmute_expression ((?a @ slice text s e) @ re_sub repl ms e text) (map fst ms)
            (map snd ms) (map (\<lambda>(s, e). slice text s e) ms)"
    using tk dr by (simp add: m)
  also have "\<dots> = Inr ((?a @ slice text s e) @ drop e text)"
    using Cons.IH [OF rest lp b(3)] .
  also have "(?a @ slice text s e) @ drop e text = pre @ drop i text"
    using b by (simp add: slice_append_drop)
  finally show ?case .
qed

lemma mute_expression_compiled:
  "re expr is_multiline = Some pattern \<Longrightarrow>
   mute_expression re text expr is_multiline =
     Inr (re_sub repl (pattern text) 0 text, map fst (pattern text), map snd (pattern text),
          map (\<lambda>(s, e). slice text s e) (pattern text))"
  by (simp add: mute_expression_def finditer_lists_def Let_def)

text \<open>
  C1. Round trip: whenever the pattern compiles and its scan of the text yields matches as
  \<^verbatim>\<open>finditer\<close> does, \<^verbatim>\<open>mute_expression\<close> returns, and \<^verbatim>\<open>unmute_expression\<close> on the
  masked text and the three lists it returned gives back the original text.
\<close>

theorem mute_unmute_round_trip:
  assumes "re expr is_multiline = Some pattern"
    and "spans_ok text (pattern text)"
  shows "case mute_expression re text expr is_multiline of
           Inl err \<Rightarrow> False
         | Inr (muted, expr_start, expr_end, expr_match) \<Rightarrow>
             unmute_expression muted expr_start expr_end expr_match = Inr text"
proof -
  have "spans_from (length text) 0 (pattern text)"
    using assms(2) by (simp add: spans_ok_def)
  then have "unmute_expression ([] @ re_sub repl (pattern text) 0 text) (map fst (pattern text))
               (map snd (pattern text)) (map (\<lambda>(s, e). slice text s e) (pattern text))
             = Inr ([] @ drop 0 text)"
    by (rule unmute_re_sub) simp_all
  then show ?thesis
    by (simp add: mute_expression_compiled [of re expr is_multiline pattern "text", OF assms(1)])
qed

lemma string_rx_compiled:
  "re_fragment string_rx False =
     Some (scan (match_here False [(Lit dq, One), (NotCh dq, Star), (Lit dq, One)]) 0 0)"
  by (simp add: re_fragment_def string_rx_def dq_def meta_chars_def class_chars_def)

lemma string_rx_src_assign:
  "scan (match_here False [(Lit dq, One), (NotCh dq, Star), (Lit dq, One)]) 0 0 src_assign
     = [(4, 13)]"
  by (simp add: src_assign_def dq_def)

theorem mute_unmute_round_trip_witness:
  "case mute_expression re_fragment src_assign string_rx False of
     Inl err \<Rightarrow> False
   | Inr (muted, expr_start, expr_end, expr_match) \<Rightarrow>
       muted = ''x = xxxxxxxxx'' \<and> expr_start = [4] \<and> expr_end = [13]
       \<and> unmute_expression muted expr_start expr_end expr_match = Inr src_assign"
proof -
  have ok: "spans_ok src_assign
              (scan (match_here False [(Lit dq, One), (NotCh dq, Star), (Lit dq, One)]) 0 0 src_assign)"
    by (simp add: string_rx_src_assign spans_ok_def src_assign_def)
  have m: "mute_expression re_fragment src_assign string_rx False =
             Inr (''x = xxxxxxxxx'', [4], [13], [dq # ''if true'' @ [dq]])"
    by (simp add: mute_expression_compiled [of re_fragment string_rx False _ src_assign,
          OF string_rx_compiled] string_rx_src_assign)
       (simp add: src_assign_def slice_def repl_def)
  show ?thesis
    using mute_unmute_round_trip [of re_fragment string_rx False _ src_assign,
        OF string_rx_compiled ok]
    by (simp add: m)
qed

text \<open>
  C3. Length invariance: under the same conditions the masked text that
  \<^verbatim>\<open>mute_expression\<close> returns is as long as the text it was given.
\<close>

theorem mute_preserves_length:
  assumes "re expr is_multiline = Some pattern"
    and "spans_ok text (pattern text)"
  shows "case mute_expression re text expr is_multiline of
           Inl err \<Rightarrow> False
         | Inr (muted, recorded) \<Rightarrow> length muted = length text"
  using assms(2) length_re_sub_repl [of "text" 0 "pattern text"]
  by (simp add: mute_expression_compiled [of re expr is_multiline pattern "text", OF assms(1)]
        spans_ok_def)

lemma comment_rx_compiled:
  "re_fragment comment_rx False =
     Some (scan (match_here False [(Lit (CHR ''/''), One), (Lit (CHR ''/''), One), (Dot, Star)]) 0 0)"
  by (simp add: re_fragment_def comment_rx_def meta_chars_def)

lemma comment_rx_src_trailing:
  "scan (match_here False [(Lit (CHR ''/''), One), (Lit (CHR ''/''), One), (Dot, Star)]) 0 0
     src_trailing = [(2, 9)]"
  by (simp add: src_trailing_def)

theorem mute_preserves_length_witness:
  "case mute_expression re_fragment src_trailing comment_rx False of
     Inl err \<Rightarrow> False
   | Inr (muted, recorded) \<Rightarrow> muted = ''a xxxxxxx'' \<and> length muted = length src_trailing"
proof -
  have ok: "spans_ok src_trailing
              (scan (match_here False [(Lit (CHR ''/''), One), (Lit (CHR ''/''), One), (Dot, Star)])
                 0 0 src_trailing)"
    by (simp add: comment_rx_src_trailing spans_ok_def src_trailing_def)
  have m: "mute_expression re_fragment src_trailing comment_rx False =
             Inr (''a xxxxxxx'', [2], [9], [''// if x''])"
    by (simp add: mute_expression_compiled [of re_fragment comment_rx False _ src_trailing,
          OF comment_rx_compiled] comment_rx_src_trailing)
       (simp add: src_trailing_def slice_def repl_def)
  show ?thesis
    using mute_preserves_length [of re_fragment comment_rx False _ src_trailing,
        OF comment_rx_compiled ok]
    by (simp add: m)
qed

subsection \<open>The color codes of a rule\<close>


subsection \<open>Splicing the escape sequences\<close>

lemma color_loop_pieces:
  "spans_from (length text) i ms \<Longrightarrow> list_all2 fits ms colorstring \<Longrightarrow>
   length pre = i + nudge \<Longrightarrow>
   color_loop (pre @ drop i text) nudge (c # more) (map fst ms) (map snd ms) colorstring =
     Inr (pre @ render (highlight_pieces text c i ms colorstring),
          nudge + length ms * (length (esc_open c) + length esc_reset))"
proof (induction ms arbitrary: i pre nudge colorstring)
  case Nil
  then show ?case by (simp add: render_def)
next
  case (Cons sp ms)
  obtain s e where sp: "sp = (s, e)" by (cases sp)
  from Cons.prems(2) sp obtain m strs where cs: "colorstring = m # strs"
    and fm: "fits (s, e) m" and rest2: "list_all2 fits ms strs"
    by (auto simp: list_all2_Cons1)
  from fm have lm: "length m = e - s" by (simp add: fits_def)
  from Cons.prems(1) sp have b: "i \<le> s" "s \<le> e" "e \<le> length text"
    and rest1: "spans_from (length text) e ms" by auto
  let ?k = "length (esc_open c) + length esc_reset"
  let ?pre = "pre @ slice text i s @ esc_open c @ m @ esc_reset"
  have tk: "take (s + nudge) (pre @ drop i text) = pre @ slice text i s"
    using Cons.prems(3) b by (simp add: slice_def)
  have dr: "drop (e + nudge) (pre @ drop i text) = drop e text"
    using Cons.prems(3) b by simp
  have lp: "length ?pre = e + (nudge + ?k)"
    using Cons.prems(3) b lm by (simp add: length_slice)
  have "color_loop (pre @ drop i text) nudge (c # more) (map fst (sp # ms)) (map snd (sp # ms))
          colorstring
        = color_loop (take (s + nudge) (pre @ drop i text) @ (esc_open c @ m @ esc_reset)
                        @ drop (e + nudge) (pre @ drop i text))
            (nudge + ?k) (c # more) (map fst ms) (map snd ms) strs"
    by (simp add: sp cs Let_def del: take_append drop_append)
  also have "\<dots> = color_loop (?pre @ drop e text) (nudge + ?k) (c # more) (map fst ms)
                        (map snd ms) strs"
    by (simp only: tk dr append_assoc)
  also have "\<dots> = Inr (?pre @ render (highlight_pieces text c e ms strs),
                        (nudge + ?k) + length ms * ?k)"
    using Cons.IH [OF rest1 rest2 lp] .
  finally show ?case
    by (simp add: sp cs render_def)
qed















subsection \<open>Every pass meets the conditions of the loop\<close>

text \<open>
  With a module that keeps the contract, the three masking steps and the three unmuting
  steps preserve the length of the text, so the matches recorded on the masked text lie
  inside the unmuted text and the recorded texts fit them: a pass that gets as far as the
  loop returns the unmuted text with each match wrapped.
\<close>

lemma fits_slices:
  "spans_from (length t) i sp \<Longrightarrow> list_all2 fits sp (map (\<lambda>(s, e). slice t s e) sp)"
  by (induction sp arbitrary: i) (auto simp: fits_def length_slice)

lemma unmute_length:
  "spans_from n i sp \<Longrightarrow> list_all2 fits sp strs \<Longrightarrow> length text = n \<Longrightarrow>
   \<exists>t'. unmute_expression text (map fst sp) (map snd sp) strs = Inr t' \<and> length t' = n"
proof (induction sp arbitrary: i strs "text")
  case Nil
  then show ?case by simp
next
  case (Cons p sp)
  obtain s e where p: "p = (s, e)" by (cases p)
  from Cons.prems(2) p obtain m ms where strs: "strs = m # ms"
    and fm: "fits (s, e) m" and rest: "list_all2 fits sp ms"
    by (auto simp: list_all2_Cons1)
  from Cons.prems(1) p have b: "s \<le> e" "e \<le> n" and sp: "spans_from n e sp" by auto
  have "length (take s text @ m @ drop e text) = n"
    using b fm Cons.prems(3) by (simp add: fits_def)
  from Cons.IH [OF sp rest this] show ?case by (simp add: p strs)
qed

lemma mute_if_ok:
  assumes "re_contract re"
    and "mute_if b re t expr flag = Inr (t', r)"
  shows "length t' = length t \<and> recorded_ok (length t) r"
proof (cases b)
  case False
  then show ?thesis using assms(2) by (auto simp: mute_if_def recorded_ok_def)
next
  case True
  with assms(2) obtain pattern where c: "re expr flag = Some pattern"
    and t': "t' = re_sub repl (pattern t) 0 t"
    and r: "r = Some (finditer_lists pattern t)"
    by (auto simp: mute_if_def mute_expression_def Let_def split: option.splits)
  have ok: "spans_from (length t) 0 (pattern t)"
    using assms(1) c by (simp add: re_contract_def spans_ok_def)
  have "length t' = length t" using length_re_sub_repl [OF ok] t' by simp
  moreover have "recorded_ok (length t) r"
    using ok fits_slices [OF ok] by (auto simp: r recorded_ok_def finditer_lists_def Let_def)
  ultimately show ?thesis by simp
qed





lemma match_here_le: "match_here d items s = Some n \<Longrightarrow> n \<le> length s"
  by (induction d items s arbitrary: n rule: match_here.induct)
     (auto split: if_splits option.splits)

lemma spans_from_mono: "spans_from n i ms \<Longrightarrow> j \<le> i \<Longrightarrow> spans_from n j ms"
  by (cases ms) auto

lemma scan_spans:
  "\<forall>s n. m s = Some n \<longrightarrow> n \<le> length s \<Longrightarrow> skip \<le> length t \<Longrightarrow>
   spans_from (pos + length t) (pos + skip) (scan m pos skip t)"
proof (induction m pos skip t rule: scan.induct)
  case (1 m pos skip)
  then show ?case by simp
next
  case (2 m pos k c cs)
  then show ?case by simp
next
  case (3 m pos c cs)
  show ?case
  proof (cases "m (c # cs)")
    case None
    then show ?thesis using 3 by (auto intro: spans_from_mono)
  next
    case (Some n)
    show ?thesis
    proof (cases n)
      case 0
      then show ?thesis using 3 Some by (auto intro: spans_from_mono)
    next
      case (Suc k)
      have "n \<le> length (c # cs)" using "3.prems"(1) Some by blast
      then have "k \<le> length cs" using Suc by simp
      then show ?thesis using "3.IH" "3.prems"(1) Some Suc by auto
    qed
  qed
qed

lemma re_fragment_contract: "re_contract re_fragment"
  unfolding re_contract_def
proof (intro allI impI)
  fix expr flag pattern t
  assume "re_fragment expr flag = Some pattern"
  then obtain items where "pattern = scan (match_here flag items) 0 0"
    by (auto simp: re_fragment_def split: option.splits if_splits)
  then show "spans_ok t (pattern t)"
    using scan_spans [of "match_here flag items" 0 t 0] match_here_le
    by (auto simp: spans_ok_def)
qed


subsection \<open>Merging the syntax into the theme\<close>

lemma map_of_dict_set:
  "map_of (dict_set k v d) k' = (if k' = k then Some v else map_of d k')"
  by (induction d) auto

lemma syntax_line_error: "syntax_line dicts line = Inl err \<Longrightarrow> is_lookup_error err"
  by (auto simp: syntax_line_def dict_get_def
      split: prod.splits list.splits option.splits sum.splits)

lemma syntax_line_keys:
  "syntax_line (td, sd) line = Inr (td', sd') \<Longrightarrow> (map_of td' k = None) = (map_of td k = None)"
  by (auto simp: syntax_line_def dict_get_def map_of_dict_set
      split: prod.splits list.splits option.splits sum.splits if_splits)

lemma syntax_line_missing:
  "syntax_fields line = regex # category # more \<Longrightarrow> map_of td category = None \<Longrightarrow>
   syntax_line (td, sd) line = Inl (KeyError category)"
  by (simp add: syntax_line_def dict_get_def)

lemma merge_syntax_error: "merge_syntax dicts syntax = Inl err \<Longrightarrow> is_lookup_error err"
proof (induction "syntax" arbitrary: dicts)
  case Nil
  then show ?case by simp
next
  case (Cons l rest)
  then show ?case
    by (auto split: sum.splits dest: syntax_line_error)
qed

lemma merge_syntax_missing:
  "line \<in> set syntax \<Longrightarrow> syntax_fields line = regex # category # more \<Longrightarrow>
   map_of td category = None \<Longrightarrow> \<exists>err. merge_syntax (td, sd) syntax = Inl err"
proof (induction "syntax" arbitrary: td sd)
  case Nil
  then show ?case by simp
next
  case (Cons l rest)
  show ?case
  proof (cases "syntax_line (td, sd) l")
    case (Inl err)
    then show ?thesis by simp
  next
    case (Inr dicts')
    obtain td' sd' where d: "dicts' = (td', sd')" by (cases dicts')
    have ne: "l \<noteq> line"
      using Inr syntax_line_missing [OF Cons.prems(2,3), of sd] by auto
    then have mem: "line \<in> set rest" using Cons.prems(1) by auto
    have "map_of td' category = None"
      using syntax_line_keys [of td sd l td' sd' category] Inr d Cons.prems(3) by simp
    from Cons.IH [OF mem Cons.prems(2) this, of sd'] show ?thesis
      by (simp add: Inr d)
  qed
qed

text \<open>
  C8. Merge-time error. If a line of the syntax file names a category that the theme
  dictionary does not have, the merge of the syntax lines ends in a lookup error
  (\<^verbatim>\<open>KeyError\<close> or \<^verbatim>\<open>IndexError\<close>), and \<^verbatim>\<open>colorfile\<close> ends in that error: nothing is
  printed and no rule is skipped.
\<close>

theorem missing_category_is_fatal:
  assumes "line \<in> set syntax"
    and "syntax_fields line = regex # category # more"
    and "map_of (build_theme theme) category = None"
  shows "\<exists>err. is_lookup_error err
           \<and> merge_syntax (build_theme theme, []) syntax = Inl err
           \<and> colorfile re theme syntax source = Inl err"
proof -
  from merge_syntax_missing [OF assms] obtain err
    where e: "merge_syntax (build_theme theme, []) syntax = Inl err" by blast
  then have "is_lookup_error err" by (rule merge_syntax_error)
  with e show ?thesis by (simp add: colorfile_def)
qed

subsection \<open>The regex a pass compiles\<close>

lemma hd_split_from:
  "sep \<noteq> [] \<Longrightarrow> hd (split_from sep cur s) = rev cur @ text_before sep s"
  by (induction s arbitrary: cur) auto

lemma keys_dict_set:
  "map fst (dict_set k v d) = (if k \<in> set (map fst d) then map fst d else map fst d @ [k])"
  by (induction d) (fastforce simp: image_iff)+

lemma distinct_dict_set:
  "distinct (map fst d) \<Longrightarrow> distinct (map fst (dict_set k v d))"
  by (simp add: keys_dict_set del: set_map)

lemma syntax_line_distinct:
  "syntax_line (td, sd) line = Inr (td', sd') \<Longrightarrow> distinct (map fst sd) \<Longrightarrow>
   distinct (map fst sd')"
  by (auto simp: syntax_line_def distinct_dict_set
      split: prod.splits list.splits option.splits sum.splits)

lemma last_item_snoc: "last_item (xs @ [x]) = Inr x"
  by (cases xs) (simp_all add: last_item_def)

lemma syntax_line_entry:
  "syntax_line (td, sd) line = Inr (td', sd') \<Longrightarrow> map_of sd' key = Some entry \<Longrightarrow>
   map_of sd key = Some entry \<or>
   (\<exists>regex more. syntax_fields line = regex # key # more \<and> last_item entry = Inr regex)"
  by (auto simp: syntax_line_def map_of_dict_set last_item_snoc
      split: prod.splits list.splits option.splits sum.splits if_splits)

lemma merge_syntax_distinct:
  "merge_syntax (td, sd) syntax = Inr (td', sd') \<Longrightarrow> distinct (map fst sd) \<Longrightarrow>
   distinct (map fst sd')"
proof (induction "syntax" arbitrary: td sd)
  case Nil
  then show ?case by simp
next
  case (Cons l rest)
  then show ?case
    by (auto split: sum.splits dest: syntax_line_distinct)
qed

lemma merge_syntax_entry:
  "merge_syntax (td, sd) syntax = Inr (td', sd') \<Longrightarrow> map_of sd' key = Some entry \<Longrightarrow>
   map_of sd key = Some entry \<or>
   (\<exists>line \<in> set syntax. \<exists>regex more.
      syntax_fields line = regex # key # more \<and> last_item entry = Inr regex)"
proof (induction "syntax" arbitrary: td sd)
  case Nil
  then show ?case by simp
next
  case (Cons l rest)
  from Cons.prems(1) obtain td1 sd1 where
    l: "syntax_line (td, sd) l = Inr (td1, sd1)"
    and r: "merge_syntax (td1, sd1) rest = Inr (td', sd')"
    by (auto split: sum.splits)
  from Cons.IH [OF r Cons.prems(2)] show ?case
  proof
    assume "map_of sd1 key = Some entry"
    from syntax_line_entry [OF l this] show ?thesis by auto
  next
    assume "\<exists>line \<in> set rest. \<exists>regex more.
      syntax_fields line = regex # key # more \<and> last_item entry = Inr regex"
    then show ?thesis by auto
  qed
qed


lemma syntax_fields_head:
  "syntax_fields line = regex # fields \<Longrightarrow>
   regex = text_before syntax_sep (remove_char (CHR 0x0A) (remove_char (CHR '' '') line))"
  using hd_split_from [of syntax_sep "[]" "remove_char (CHR 0x0A) (remove_char (CHR '' '') line)"]
  by (simp add: syntax_fields_def split_def syntax_sep_def)

lemma merged_entry:
  assumes "merge_syntax (td, []) syntax = Inr (theme_dict, syntax_dict)"
    and "map_of syntax_dict key = Some entry"
  shows "\<exists>regex. last_item entry = Inr regex
           \<and> (\<exists>line \<in> set syntax. \<exists>more. syntax_fields line = regex # key # more
                 \<and> regex = text_before syntax_sep
                     (remove_char (CHR 0x0A) (remove_char (CHR '' '') line)))"
  using merge_syntax_entry [OF assms] syntax_fields_head by fastforce

lemma special_regex_entry:
  "special_regex syntax_dict k = Inr r \<Longrightarrow>
   \<exists>entry. map_of syntax_dict k = Some entry \<and> last_item entry = Inr r"
  by (auto simp: special_regex_def dict_get_def split: option.splits sum.splits)

lemma merged_special:
  assumes "merge_syntax (td, []) syntax = Inr (theme_dict, syntax_dict)"
    and "special_regex syntax_dict k = Inr r"
  shows "\<exists>line \<in> set syntax. \<exists>more. syntax_fields line = r # k # more
           \<and> r = text_before syntax_sep (remove_char (CHR 0x0A) (remove_char (CHR '' '') line))"
proof -
  from special_regex_entry [OF assms(2)] obtain entry
    where e: "map_of syntax_dict k = Some entry" and l: "last_item entry = Inr r" by blast
  from merged_entry [OF assms(1) e] l show ?thesis by auto
qed

lemma sample_merge:
  "merge_syntax (build_theme sample_theme, []) sample_syntax =
     Inr ([(''keyword'', [''31'', ''1'', dq # ''if'']), (''string'', [''33'', dq # string_rx]),
           (''comment'', [''32'', dq # comment_rx]), (''mlcomment'', [''32'', dq # mlcomment_rx])],
          [(''keyword'', [''31'', ''1'', dq # ''if'']), (''string'', [''33'', dq # string_rx]),
           (''comment'', [''32'', dq # comment_rx]), (''mlcomment'', [''32'', dq # mlcomment_rx])])"
  by code_simp

theorem missing_category_is_fatal_witness:
  "colorfile re_fragment sample_theme (sample_syntax @ [number_line]) [''if x''] =
     Inl (KeyError ''number'')"
proof -
  have a: "number_line \<in> set (sample_syntax @ [number_line])" by simp
  have b: "syntax_fields number_line = (dq # ''[0-9]+'') # ''number'' # []"
    by code_simp
  have c: "map_of (build_theme sample_theme) ''number'' = None"
    by code_simp
  have d: "merge_syntax (build_theme sample_theme, []) (sample_syntax @ [number_line]) =
             Inl (KeyError ''number'')"
    by code_simp
  show ?thesis
    using missing_category_is_fatal [OF a b c, of re_fragment "[''if x'']"]
    by (auto simp: d)
qed

subsection \<open>Unmuting in the reverse order restores the text\<close>

text \<open>
  With a module that keeps the contract, each masking step is undone by the unmuting step
  for its record, applied to the text that the masking step produced. Undoing the steps last
  to first therefore returns the text the pass was given, for every kind.
\<close>

lemma mute_if_unmute_if:
  assumes "re_contract re"
    and "mute_if b re t expr flag = Inr (t', r)"
  shows "unmute_if b t' r = Inr t"
proof (cases b)
  case False
  then show ?thesis using assms(2) by (auto simp: mute_if_def unmute_if_def)
next
  case True
  with assms(2) obtain pattern where c: "re expr flag = Some pattern"
    and t': "t' = re_sub repl (pattern t) 0 t"
    and r: "r = Some (finditer_lists pattern t)"
    by (auto simp: mute_if_def mute_expression_def Let_def split: option.splits)
  have ok: "spans_from (length t) 0 (pattern t)"
    using assms(1) c by (simp add: re_contract_def spans_ok_def)
  have "unmute_expression ([] @ re_sub repl (pattern t) 0 t) (map fst (pattern t))
          (map snd (pattern t)) (map (\<lambda>(s, e). slice t s e) (pattern t)) = Inr ([] @ drop 0 t)"
    using ok by (intro unmute_re_sub) simp_all
  then show ?thesis
    using True by (simp add: unmute_if_def r t' finditer_lists_def Let_def)
qed

lemma reversed_unmute_restores:
  assumes "re_contract re"
    and "mute_phase re text kind strexpr comexpr mlcomexpr = Inr (masked, mlc, s, c)"
  shows "unmute_phase_reversed masked kind mlc s c = Inr text"
proof -
  from assms(2) obtain t1 t2 where
    m1: "mute_if (kind \<noteq> ''mlcomment'') re text mlcomexpr True = Inr (t1, mlc)"
    and m2: "mute_if (kind \<noteq> ''string'' \<and> kind \<noteq> ''mlcomment'') re t1 strexpr False = Inr (t2, s)"
    and m3: "mute_if (kind \<noteq> ''comment'') re t2 comexpr False = Inr (masked, c)"
    by (auto simp: mute_phase_def split: sum.splits)
  show ?thesis
    by (simp add: unmute_phase_reversed_def mute_if_unmute_if [OF assms(1) m3]
          mute_if_unmute_if [OF assms(1) m2] mute_if_unmute_if [OF assms(1) m1])
qed

subsection \<open>Where a pass does not keep strings and comments apart\<close>

text \<open>
  C7. The source unmutes strings first, then comments, then multi-line comments. In the
  keyword pass over \<^verbatim>\<open>// say "hi"\<close> the comment was recorded from the text whose string
  was already masked, so unmuting the comment after the string writes the placeholder back
  over the string: the pass returns \<^verbatim>\<open>// say xxxx\<close>. Unmuting in the reverse of the
  masking order returns the source line.
\<close>

theorem unmute_order_overwrites_string:
  "colorize re_fragment src_quoting ''if'' [''31''] ''keyword'' string_rx comment_rx mlcomment_rx
     = Inr ''// say xxxx''
   \<and> mute_phase re_fragment src_quoting ''keyword'' string_rx comment_rx mlcomment_rx
     = Inr (''xxxxxxxxxxx'', Some ([], [], []), Some ([7], [11], [dq # ''hi'' @ [dq]]),
            Some ([0], [11], [''// say xxxx'']))
   \<and> unmute_phase ''xxxxxxxxxxx'' ''keyword'' (Some ([], [], []))
         (Some ([7], [11], [dq # ''hi'' @ [dq]])) (Some ([0], [11], [''// say xxxx'']))
     = Inr ''// say xxxx''
   \<and> unmute_phase_reversed ''xxxxxxxxxxx'' ''keyword'' (Some ([], [], []))
         (Some ([7], [11], [dq # ''hi'' @ [dq]])) (Some ([0], [11], [''// say xxxx'']))
     = Inr src_quoting"
  by code_simp

text \<open>
  C2. The keyword pass with the rule \<^verbatim>\<open>[a-z]+\<close> over \<^verbatim>\<open>x = "if true"\<close>: the rule matches
  \<^verbatim>\<open>if\<close> inside the string literal, the literal is masked to nine \<^verbatim>\<open>x\<close>, the rule matches
  the placeholder, and the pass wraps the literal's place in escape sequences.
\<close>

theorem word_rule_colors_inside_string:
  "map_option (\<lambda>pattern. pattern src_assign) (re_fragment word_rx False)
     = Some [(0, 1), (5, 7), (8, 12)]
   \<and> map_option (\<lambda>pattern. pattern src_assign) (re_fragment string_rx False) = Some [(4, 13)]
   \<and> colorize re_fragment src_assign word_rx [''31''] ''keyword'' string_rx comment_rx
         mlcomment_rx
     = Inr (esc_open ''31'' @ ''x'' @ esc_reset @ '' = ''
            @ esc_open ''31'' @ ''xxxxxxxxx'' @ esc_reset)"
  by code_simp

text \<open>
  C6. The placeholder is the letter \<^verbatim>\<open>x\<close>. After the string of \<^verbatim>\<open>// say "hi"\<close> is masked,
  the rule \<^verbatim>\<open>[a-z]+\<close> has a match that is exactly the placeholder-filled span.
\<close>

theorem placeholder_matched_by_word_rule:
  "mute_expression re_fragment src_quoting string_rx False
     = Inr (''// say xxxx'', [7], [11], [dq # ''hi'' @ [dq]])
   \<and> map_option (\<lambda>pattern. pattern ''// say xxxx'') (re_fragment word_rx False)
     = Some [(3, 6), (7, 11)]"
  by code_simp

subsection \<open>What a pass masks and where it puts its highlights\<close>

lemma mute_if_compiled:
  "(b \<Longrightarrow> re expr flag = Some p) \<Longrightarrow>
   mute_if b re t expr flag =
     Inr (if b then re_sub repl (p t) 0 t else t, if b then Some (finditer_lists p t) else None)"
  by (cases b) (simp_all add: mute_if_def mute_expression_def Let_def)

lemma unmute_if_returns:
  assumes "recorded_ok (length t) r" and "b \<Longrightarrow> r \<noteq> None"
  shows "\<exists>t'. unmute_if b t r = Inr t' \<and> length t' = length t"
proof (cases b)
  case False
  then show ?thesis by (simp add: unmute_if_def)
next
  case True
  with assms(2) obtain ss es strs where r: "r = Some (ss, es, strs)" by (cases r) auto
  with assms(1) obtain sp where sp: "ss = map fst sp" "es = map snd sp"
    "spans_from (length t) 0 sp" "list_all2 fits sp strs"
    by (auto simp: recorded_ok_def)
  from unmute_length [OF sp(3,4), of t] sp(1,2) show ?thesis
    using True by (simp add: unmute_if_def r)
qed

lemma colorize_result:
  assumes contract: "re_contract re"
    and mlc: "kind \<noteq> ''mlcomment'' \<Longrightarrow> re mlcomexpr True = Some pm"
    and str: "kind \<noteq> ''string'' \<and> kind \<noteq> ''mlcomment'' \<Longrightarrow> re strexpr False = Some ps"
    and com: "kind \<noteq> ''comment'' \<Longrightarrow> re comexpr False = Some pc"
    and own: "re regex (kind = ''mlcomment'') = Some pr"
    and t1: "text1 = (if kind \<noteq> ''mlcomment'' then re_sub repl (pm text) 0 text else text)"
    and t2: "text2 = (if kind \<noteq> ''string'' \<and> kind \<noteq> ''mlcomment''
                      then re_sub repl (ps text1) 0 text1 else text1)"
    and t3: "masked = (if kind \<noteq> ''comment'' then re_sub repl (pc text2) 0 text2 else text2)"
    and r1: "mlcr = (if kind \<noteq> ''mlcomment'' then Some (finditer_lists pm text) else None)"
    and r2: "sr = (if kind \<noteq> ''string'' \<and> kind \<noteq> ''mlcomment''
                   then Some (finditer_lists ps text1) else None)"
    and r3: "cr = (if kind \<noteq> ''comment'' then Some (finditer_lists pc text2) else None)"
  shows "mute_phase re text kind strexpr comexpr mlcomexpr = Inr (masked, mlcr, sr, cr)
         \<and> find_matches re regex kind masked = Inr (finditer_lists pr masked)
         \<and> (\<exists>unmuted. unmute_phase masked kind mlcr sr cr = Inr unmuted
               \<and> length unmuted = length text
               \<and> colorize re text regex (c # more) kind strexpr comexpr mlcomexpr =
                   Inr (render (highlight_pieces unmuted c 0 (pr masked)
                          (map (\<lambda>(s, e). slice masked s e) (pr masked)))))"
proof -
  have m1: "mute_if (kind \<noteq> ''mlcomment'') re text mlcomexpr True = Inr (text1, mlcr)"
    using mute_if_compiled [of "kind \<noteq> ''mlcomment''" re mlcomexpr True pm "text"] mlc
    by (simp add: t1 r1)
  have m2: "mute_if (kind \<noteq> ''string'' \<and> kind \<noteq> ''mlcomment'') re text1 strexpr False
              = Inr (text2, sr)"
    using mute_if_compiled [of "kind \<noteq> ''string'' \<and> kind \<noteq> ''mlcomment''" re strexpr False ps
        text1] str
    by (simp add: t2 r2)
  have m3: "mute_if (kind \<noteq> ''comment'') re text2 comexpr False = Inr (masked, cr)"
    using mute_if_compiled [of "kind \<noteq> ''comment''" re comexpr False pc text2] com
    by (simp add: t3 r3)
  have mp: "mute_phase re text kind strexpr comexpr mlcomexpr = Inr (masked, mlcr, sr, cr)"
    by (simp add: mute_phase_def m1 m2 m3)
  note o1 = mute_if_ok [OF contract m1] and o2 = mute_if_ok [OF contract m2]
    and o3 = mute_if_ok [OF contract m3]
  have lm: "length masked = length text" using o1 o2 o3 by simp
  have "recorded_ok (length masked) sr" using o1 o2 o3 by simp
  moreover have "kind \<noteq> ''string'' \<and> kind \<noteq> ''mlcomment'' \<Longrightarrow> sr \<noteq> None"
    by (simp add: r2)
  ultimately obtain u1 where
    u1: "unmute_if (kind \<noteq> ''string'' \<and> kind \<noteq> ''mlcomment'') masked sr = Inr u1"
    and l1: "length u1 = length masked"
    using unmute_if_returns [of masked sr "kind \<noteq> ''string'' \<and> kind \<noteq> ''mlcomment''"]
    by blast
  have "recorded_ok (length u1) cr" using o1 o2 o3 l1 by simp
  moreover have "kind \<noteq> ''comment'' \<Longrightarrow> cr \<noteq> None" by (simp add: r3)
  ultimately obtain u2 where
    u2: "unmute_if (kind \<noteq> ''comment'') u1 cr = Inr u2" and l2: "length u2 = length u1"
    using unmute_if_returns [of u1 cr "kind \<noteq> ''comment''"] by blast
  have "recorded_ok (length u2) mlcr" using o1 o2 o3 l1 l2 by simp
  moreover have "kind \<noteq> ''mlcomment'' \<Longrightarrow> mlcr \<noteq> None" by (simp add: r1)
  ultimately obtain unmuted where
    u3: "unmute_if (kind \<noteq> ''mlcomment'') u2 mlcr = Inr unmuted"
    and l3: "length unmuted = length u2"
    using unmute_if_returns [of u2 mlcr "kind \<noteq> ''mlcomment''"] by blast
  have up: "unmute_phase masked kind mlcr sr cr = Inr unmuted"
    by (simp add: unmute_phase_def u1 u2 u3)
  have lu: "length unmuted = length text" using l1 l2 l3 lm by simp
  have fm: "find_matches re regex kind masked = Inr (finditer_lists pr masked)"
    by (simp add: find_matches_def own)
  have ok: "spans_from (length masked) 0 (pr masked)"
    using contract own by (simp add: re_contract_def spans_ok_def)
  have sp: "spans_from (length unmuted) 0 (pr masked)" using ok lu lm by simp
  have "color_loop ([] @ drop 0 unmuted) 0 (c # more) (map fst (pr masked)) (map snd (pr masked))
          (map (\<lambda>(s, e). slice masked s e) (pr masked)) =
        Inr ([] @ render (highlight_pieces unmuted c 0 (pr masked)
                    (map (\<lambda>(s, e). slice masked s e) (pr masked))),
             0 + length (pr masked) * (length (esc_open c) + length esc_reset))"
    using sp fits_slices [OF ok] by (intro color_loop_pieces) simp_all
  then have "colorize re text regex (c # more) kind strexpr comexpr mlcomexpr =
      Inr (render (highlight_pieces unmuted c 0 (pr masked)
             (map (\<lambda>(s, e). slice masked s e) (pr masked))))"
    by (simp add: colorize_def mp fm up finditer_lists_def Let_def)
  with mp fm up lu show ?thesis by blast
qed

text \<open>
  C4, as stated, fails in its line-oriented part. Compiled without \<^verbatim>\<open>re.DOTALL\<close>, the
  string pattern \<^verbatim>\<open>"[^"]*"\<close> still matches across a newline: the string literal that
  runs over two lines is masked as the one span from 0 to 6, which holds the newline at
  offset 2, and the keyword pass leaves the \<^verbatim>\<open>if\<close> on its second line uncolored.
\<close>

theorem string_mask_crosses_newline:
  "mute_expression re_fragment src_two_lines string_rx False
     = Inr (''xxxxxx'', [0], [6], [src_two_lines])
   \<and> src_two_lines ! 2 = nl
   \<and> colorize re_fragment src_two_lines ''if'' [''31''] ''keyword'' string_rx comment_rx
         mlcomment_rx = Inr src_two_lines"
  by code_simp

text \<open>
  C4, amended. For a module that keeps the contract and patterns that compile, a pass masks
  the multi-line comments, with the pattern compiled with \<^verbatim>\<open>re.DOTALL\<close>, unless its kind
  is \<^verbatim>\<open>mlcomment\<close>; then the strings, with the pattern compiled without \<^verbatim>\<open>re.DOTALL\<close>,
  unless its kind is \<^verbatim>\<open>string\<close> or \<^verbatim>\<open>mlcomment\<close>; then the comments, with the pattern
  compiled without \<^verbatim>\<open>re.DOTALL\<close>, unless its kind is \<^verbatim>\<open>comment\<close>; each step on the text
  the step before left. The pass returns a text of the input's length with one highlight
  at each match that the rule's own regex, compiled with \<^verbatim>\<open>re.DOTALL\<close> exactly for the
  kind \<^verbatim>\<open>mlcomment\<close>, has on that masked text.
\<close>

theorem colorize_masking_gates:
  assumes "re_contract re"
    and "kind \<noteq> ''mlcomment'' \<Longrightarrow> re mlcomexpr True = Some pm"
    and "kind \<noteq> ''string'' \<and> kind \<noteq> ''mlcomment'' \<Longrightarrow> re strexpr False = Some ps"
    and "kind \<noteq> ''comment'' \<Longrightarrow> re comexpr False = Some pc"
    and "re regex (kind = ''mlcomment'') = Some pr"
  shows "let text1 = (if kind \<noteq> ''mlcomment'' then re_sub repl (pm text) 0 text else text);
             text2 = (if kind \<noteq> ''string'' \<and> kind \<noteq> ''mlcomment''
                      then re_sub repl (ps text1) 0 text1 else text1);
             masked = (if kind \<noteq> ''comment'' then re_sub repl (pc text2) 0 text2 else text2)
         in (\<exists>mlcr sr cr.
               mute_phase re text kind strexpr comexpr mlcomexpr = Inr (masked, mlcr, sr, cr))
            \<and> (\<exists>unmuted colorstring.
                  length unmuted = length text \<and> list_all2 fits (pr masked) colorstring
                  \<and> colorize re text regex (c # more) kind strexpr comexpr mlcomexpr =
                      Inr (render (highlight_pieces unmuted c 0 (pr masked) colorstring)))"
proof -
  define text1 where "text1 = (if kind \<noteq> ''mlcomment'' then re_sub repl (pm text) 0 text else text)"
  define text2 where "text2 = (if kind \<noteq> ''string'' \<and> kind \<noteq> ''mlcomment''
                      then re_sub repl (ps text1) 0 text1 else text1)"
  define masked where
    "masked = (if kind \<noteq> ''comment'' then re_sub repl (pc text2) 0 text2 else text2)"
  have ok: "spans_from (length masked) 0 (pr masked)"
    using assms(1,5) by (simp add: re_contract_def spans_ok_def)
  from colorize_result [OF assms text1_def text2_def masked_def refl refl refl, of c more]
  have "(\<exists>mlcr sr cr.
           mute_phase re text kind strexpr comexpr mlcomexpr = Inr (masked, mlcr, sr, cr))
        \<and> (\<exists>unmuted colorstring.
              length unmuted = length text \<and> list_all2 fits (pr masked) colorstring
              \<and> colorize re text regex (c # more) kind strexpr comexpr mlcomexpr =
                  Inr (render (highlight_pieces unmuted c 0 (pr masked) colorstring)))"
    using fits_slices [OF ok] by blast
  then show ?thesis
    by (simp only: Let_def text1_def text2_def masked_def)
qed

lemma mlcomment_rx_compiled:
  "re_fragment mlcomment_rx True =
     Some (scan (match_here True [(Lit (CHR ''/''), One), (Lit (CHR ''*''), One), (Dot, Lazy),
                                   (Lit (CHR ''*''), One), (Lit (CHR ''/''), One)]) 0 0)"
  by (simp add: re_fragment_def mlcomment_rx_def meta_chars_def)

lemma if_rx_compiled:
  "re_fragment ''if'' False =
     Some (scan (match_here False [(Lit (CHR ''i''), One), (Lit (CHR ''f''), One)]) 0 0)"
  by (simp add: re_fragment_def meta_chars_def)

lemma block_pass:
  "colorize re_fragment src_block ''if'' [''31''] ''keyword'' string_rx comment_rx mlcomment_rx
     = Inr (''/* a'' @ nl # ''if */ '' @ esc_open ''31'' @ ''if'' @ esc_reset)"
  by code_simp

lemma block_mute_phase:
  "mute_phase re_fragment src_block ''keyword'' string_rx comment_rx mlcomment_rx
     = Inr (''xxxxxxxxxx if'', Some ([0], [10], [''/* a'' @ nl # ''if */'']),
            Some ([], [], []), Some ([], [], []))"
  by code_simp

theorem colorize_masking_gates_witness:
  "colorize re_fragment src_block ''if'' [''31''] ''keyword'' string_rx comment_rx mlcomment_rx
     = Inr (''/* a'' @ nl # ''if */ '' @ esc_open ''31'' @ ''if'' @ esc_reset)
   \<and> mute_phase re_fragment src_block ''keyword'' string_rx comment_rx mlcomment_rx
     = Inr (''xxxxxxxxxx if'', Some ([0], [10], [''/* a'' @ nl # ''if */'']),
            Some ([], [], []), Some ([], [], []))"
proof -
  have a: "''keyword'' \<noteq> ''mlcomment'' \<Longrightarrow> re_fragment mlcomment_rx True =
      Some (scan (match_here True [(Lit (CHR ''/''), One), (Lit (CHR ''*''), One), (Dot, Lazy),
                                    (Lit (CHR ''*''), One), (Lit (CHR ''/''), One)]) 0 0)"
    by (rule mlcomment_rx_compiled)
  have b: "''keyword'' \<noteq> ''string'' \<and> ''keyword'' \<noteq> ''mlcomment'' \<Longrightarrow>
      re_fragment string_rx False =
      Some (scan (match_here False [(Lit dq, One), (NotCh dq, Star), (Lit dq, One)]) 0 0)"
    by (rule string_rx_compiled)
  have c: "''keyword'' \<noteq> ''comment'' \<Longrightarrow> re_fragment comment_rx False =
      Some (scan (match_here False [(Lit (CHR ''/''), One), (Lit (CHR ''/''), One), (Dot, Star)])
              0 0)"
    by (rule comment_rx_compiled)
  have d: "re_fragment ''if'' (''keyword'' = ''mlcomment'') =
      Some (scan (match_here False [(Lit (CHR ''i''), One), (Lit (CHR ''f''), One)]) 0 0)"
    using if_rx_compiled by simp
  show ?thesis
    using colorize_masking_gates [OF re_fragment_contract a b c d, of src_block "''31''" "[]"]
      block_pass block_mute_phase
    apply -
    apply (rule conjI)
     apply assumption+
    done
qed

subsection \<open>The highlights of a pass\<close>



text \<open>
  The loop writes the text it recorded from the masked text. Where a match reaches into a
  masked span that is placeholder text, not the text that stands there after unmuting: the
  comment pass over \<^verbatim>\<open>// say "hi"\<close> returns \<^verbatim>\<open>ESC[32m// say xxxxESC[0m\<close>. The statement
  below is about the passes in which the two agree.
\<close>

lemma comment_pass_writes_placeholder:
  "colorize re_fragment src_quoting comment_rx [''32''] ''comment'' string_rx comment_rx
     mlcomment_rx = Inr (esc_open ''32'' @ ''// say xxxx'' @ esc_reset)"
  by code_simp




subsection \<open>The whole file as a fold of passes\<close>

lemma rule_passes_apply_rules:
  "\<forall>(key, entry) \<in> set sd. entry \<noteq> [] \<Longrightarrow>
   rule_passes re text sd strexpr comexpr mlcomexpr =
     apply_rules re text (map (\<lambda>(key, entry). (key, butlast entry, drop 1 (last entry))) sd)
       (drop 1 strexpr) (drop 1 comexpr) (drop 1 mlcomexpr)"
proof (induction sd arbitrary: "text")
  case Nil
  then show ?case by simp
next
  case (Cons p sd)
  obtain key entry where p: "p = (key, entry)" by (cases p)
  from Cons.prems p have ne: "entry \<noteq> []" and rest: "\<forall>(key, entry) \<in> set sd. entry \<noteq> []"
    by auto
  have l: "last_item entry = Inr (last entry)"
    using ne by (cases entry) (simp_all add: last_item_def)
  show ?case
    using Cons.IH [OF rest]
    by (simp add: p rule_pass_def l split: sum.splits)
qed

lemma merged_entries_nonempty:
  assumes "merge_syntax (td, []) syntax = Inr (theme_dict, syntax_dict)"
  shows "\<forall>(key, entry) \<in> set syntax_dict. entry \<noteq> []"
proof -
  have d: "distinct (map fst syntax_dict)"
    using merge_syntax_distinct [OF assms] by simp
  {
    fix key entry
    assume "(key, entry) \<in> set syntax_dict"
    with d have "map_of syntax_dict key = Some entry" by simp
    from merged_entry [OF assms this] have "entry \<noteq> []"
      by (auto simp: last_item_def)
  }
  then show ?thesis by auto
qed

lemma colorfile_apply_rules:
  assumes "merge_syntax (build_theme theme, []) syntax = Inr (theme_dict, syntax_dict)"
    and "special_regex syntax_dict ''string'' = Inr strexpr"
    and "special_regex syntax_dict ''comment'' = Inr comexpr"
    and "special_regex syntax_dict ''mlcomment'' = Inr mlcomexpr"
  shows "colorfile re theme syntax source =
           apply_rules re (concat source)
             (map (\<lambda>(key, entry). (key, butlast entry, drop 1 (last entry))) syntax_dict)
             (drop 1 strexpr) (drop 1 comexpr) (drop 1 mlcomexpr)"
  using rule_passes_apply_rules [OF merged_entries_nonempty [OF assms(1)]]
  by (simp add: colorfile_def assms)





lemma sample_specials:
  "special_regex [(''keyword'', [''31'', ''1'', dq # ''if'']), (''string'', [''33'', dq # string_rx]),
      (''comment'', [''32'', dq # comment_rx]), (''mlcomment'', [''32'', dq # mlcomment_rx])]
     ''string'' = Inr (dq # string_rx)
   \<and> special_regex [(''keyword'', [''31'', ''1'', dq # ''if'']), (''string'', [''33'', dq # string_rx]),
      (''comment'', [''32'', dq # comment_rx]), (''mlcomment'', [''32'', dq # mlcomment_rx])]
     ''comment'' = Inr (dq # comment_rx)
   \<and> special_regex [(''keyword'', [''31'', ''1'', dq # ''if'']), (''string'', [''33'', dq # string_rx]),
      (''comment'', [''32'', dq # comment_rx]), (''mlcomment'', [''32'', dq # mlcomment_rx])]
     ''mlcomment'' = Inr (dq # mlcomment_rx)"
  by (simp add: special_regex_def dict_get_def last_item_def)




text \<open>
  C10. The leading character of every regex is dropped. After a merge that succeeds,
  \<^verbatim>\<open>colorfile\<close> is the fold of the passes over the entries of the syntax dictionary, in
  their order, in which each pass is given the last item of its entry without its first
  character as the regex to compile, and the regexes of the categories \<^verbatim>\<open>string\<close>,
  \<^verbatim>\<open>comment\<close> and \<^verbatim>\<open>mlcomment\<close> without their first characters. The last item of an entry,
  and each of the three special regexes, is the text before the first separator \<^verbatim>\<open>":\<close> of
  a syntax line of that category, with spaces and the newline removed.
\<close>

theorem compiled_pattern_drops_first_char:
  assumes "merge_syntax (build_theme theme, []) syntax = Inr (theme_dict, syntax_dict)"
    and "(key, entry) \<in> set syntax_dict"
    and "special_regex syntax_dict ''string'' = Inr strexpr"
    and "special_regex syntax_dict ''comment'' = Inr comexpr"
    and "special_regex syntax_dict ''mlcomment'' = Inr mlcomexpr"
  shows "colorfile re theme syntax source =
           apply_rules re (concat source)
             (map (\<lambda>(key, entry). (key, butlast entry, drop 1 (last entry))) syntax_dict)
             (drop 1 strexpr) (drop 1 comexpr) (drop 1 mlcomexpr)
         \<and> (\<exists>line \<in> set syntax. \<exists>more. syntax_fields line = last entry # key # more
               \<and> last entry = text_before syntax_sep
                   (remove_char (CHR 0x0A) (remove_char (CHR '' '') line)))
         \<and> (\<exists>line \<in> set syntax. \<exists>more. syntax_fields line = strexpr # ''string'' # more
               \<and> strexpr = text_before syntax_sep
                   (remove_char (CHR 0x0A) (remove_char (CHR '' '') line)))
         \<and> (\<exists>line \<in> set syntax. \<exists>more. syntax_fields line = comexpr # ''comment'' # more
               \<and> comexpr = text_before syntax_sep
                   (remove_char (CHR 0x0A) (remove_char (CHR '' '') line)))
         \<and> (\<exists>line \<in> set syntax. \<exists>more. syntax_fields line = mlcomexpr # ''mlcomment'' # more
               \<and> mlcomexpr = text_before syntax_sep
                   (remove_char (CHR 0x0A) (remove_char (CHR '' '') line)))"
proof -
  have "distinct (map fst syntax_dict)"
    using merge_syntax_distinct [OF assms(1)] by simp
  then have e: "map_of syntax_dict key = Some entry"
    using assms(2) by simp
  from merged_entry [OF assms(1) e] obtain regex
    where l: "last_item entry = Inr regex"
      and f: "\<exists>line \<in> set syntax. \<exists>more. syntax_fields line = regex # key # more
                \<and> regex = text_before syntax_sep
                    (remove_char (CHR 0x0A) (remove_char (CHR '' '') line))"
    by blast
  from l have "regex = last entry" by (cases entry) (auto simp: last_item_def)
  with f have f': "\<exists>line \<in> set syntax. \<exists>more. syntax_fields line = last entry # key # more
                \<and> last entry = text_before syntax_sep
                    (remove_char (CHR 0x0A) (remove_char (CHR '' '') line))"
    by simp
  show ?thesis
    using colorfile_apply_rules [OF assms(1,3,4,5), of re source] f'
      merged_special [OF assms(1) assms(3)] merged_special [OF assms(1) assms(4)]
      merged_special [OF assms(1) assms(5)]
    by (intro conjI)
qed

lemma demo_colorfile:
  "colorfile re_fragment sample_theme sample_syntax src_demo =
     Inr (esc_open ''31'' @ ''if'' @ esc_reset @ '' (x) { } ''
          @ esc_open ''32'' @ ''// if comment'' @ esc_reset)"
  by code_simp

lemma demo_rules:
  "apply_rules re_fragment (concat src_demo)
     [(''keyword'', [''31'', ''1''], ''if''), (''string'', [''33''], string_rx),
      (''comment'', [''32''], comment_rx), (''mlcomment'', [''32''], mlcomment_rx)]
     string_rx comment_rx mlcomment_rx =
   Inr (esc_open ''31'' @ ''if'' @ esc_reset @ '' (x) { } ''
        @ esc_open ''32'' @ ''// if comment'' @ esc_reset)"
  by code_simp

theorem compiled_pattern_drops_first_char_witness:
  "colorfile re_fragment sample_theme sample_syntax src_demo =
     apply_rules re_fragment (concat src_demo)
       [(''keyword'', [''31'', ''1''], ''if''), (''string'', [''33''], string_rx),
        (''comment'', [''32''], comment_rx), (''mlcomment'', [''32''], mlcomment_rx)]
       string_rx comment_rx mlcomment_rx
   \<and> colorfile re_fragment sample_theme sample_syntax src_demo =
     Inr (esc_open ''31'' @ ''if'' @ esc_reset @ '' (x) { } ''
          @ esc_open ''32'' @ ''// if comment'' @ esc_reset)
   \<and> (\<exists>line \<in> set sample_syntax. \<exists>more.
          syntax_fields line = (dq # ''if'') # ''keyword'' # more)"
proof -
  let ?sd = "[(''keyword'', [''31'', ''1'', dq # ''if'']), (''string'', [''33'', dq # string_rx]),
              (''comment'', [''32'', dq # comment_rx]),
              (''mlcomment'', [''32'', dq # mlcomment_rx])]"
  have k: "(''keyword'', [''31'', ''1'', dq # ''if'']) \<in> set ?sd" by simp
  note q = sample_specials
  note t = compiled_pattern_drops_first_char [OF sample_merge k q [THEN conjunct1]
      q [THEN conjunct2, THEN conjunct1] q [THEN conjunct2, THEN conjunct2],
      where re = re_fragment and source = src_demo]
  from t have a: "colorfile re_fragment sample_theme sample_syntax src_demo =
     apply_rules re_fragment (concat src_demo)
       [(''keyword'', [''31'', ''1''], ''if''), (''string'', [''33''], string_rx),
        (''comment'', [''32''], comment_rx), (''mlcomment'', [''32''], mlcomment_rx)]
       string_rx comment_rx mlcomment_rx"
    by simp
  from t [THEN conjunct2, THEN conjunct1]
  have b: "\<exists>line \<in> set sample_syntax. \<exists>more.
          syntax_fields line = (dq # ''if'') # ''keyword'' # more"
    by auto
  show ?thesis
    using a b demo_rules by simp
qed

end
